theory Spec2Isabelle
  imports Main "HOL-Library.Char_ord" "HOL-Library.List_Lexorder" "HOL-Library.AList"
begin

section \<open>Data model\<close>

text \<open>
  Go's \<^verbatim>\<open>http.Header\<close> and \<^verbatim>\<open>url.Values\<close> are both \<^verbatim>\<open>map[string][]string\<close>. The code
  ranges over such maps, so they are association lists here; a Go map has each key once,
  which is \<open>distinct (map fst h)\<close>. The order of the entries stands for the order in which
  a \<^verbatim>\<open>range\<close> loop happens to visit the map, which Go leaves open.
\<close>

type_synonym Header = "(string \<times> string list) list"
type_synonym Values = "(string \<times> string list) list"
type_synonym bytes = string

text \<open>
  \<^verbatim>\<open>url.URL\<close>, with the fields the program touches. \<open>QueryPairs\<close> holds the decoded
  (name, value) pairs of the query string in the order they are written there, the items
  \<^verbatim>\<open>url.ParseQuery\<close> adds to its result one after the other; splitting the raw string at
  \<^verbatim>\<open>&\<close> and \<^verbatim>\<open>=\<close> and percent-decoding are the standard library's.
\<close>

record URL =
  Scheme :: string
  URLHost :: string
  Path :: string
  QueryPairs :: "(string \<times> string) list"

record Request =
  Method :: string
  URL :: URL
  Host :: string
  Header :: Header

text \<open>
  \<^verbatim>\<open>http.Response\<close> as \<^verbatim>\<open>ModifyResponse\<close> receives it. \<open>RespBody\<close> is what
  \<^verbatim>\<open>io.ReadAll(resp.Body)\<close> gives: \<open>Inl err\<close> when reading fails, \<open>Inr b\<close> the bytes read.
\<close>

record Response =
  RespStatusCode :: int
  RespHeader :: Header
  RespBody :: "string + bytes"
  RespRequest :: Request

record CachedResponse =
  Response :: bytes
  StatusCode :: int
  Headers :: Header
  Timestamp :: nat

text \<open>The origin's answer to one round trip as the transport returns it to the reverse
  proxy: status, header map, and what reading the body gives.\<close>

record OriginResponse =
  OStatusCode :: int
  OHeader :: Header
  OBody :: "string + bytes"

text \<open>What has been written to the \<^verbatim>\<open>http.ResponseWriter\<close> when the handler returns.\<close>

record Written =
  WStatus :: int
  WHeader :: Header
  WBody :: bytes

text \<open>
  The process state: the global \<^verbatim>\<open>cache\<close> map (every access in the source is under
  \<^verbatim>\<open>cacheMutex\<close>, so each is one atomic step), and the list of outbound requests sent to
  the origin so far, which makes a call to the origin observable.
\<close>

record state =
  cache :: "string \<rightharpoonup> CachedResponse"
  origin_log :: "Request list"

section \<open>Header and Values operations of the standard library\<close>

text \<open>\<^verbatim>\<open>h[k]\<close>: the values of a key, the empty slice when the key is absent.\<close>

definition values_of :: "Header \<Rightarrow> string \<Rightarrow> string list" where
  "values_of h k = (case map_of h k of None \<Rightarrow> [] | Some vs \<Rightarrow> vs)"

text \<open>\<^verbatim>\<open>h.Add(k, v)\<close> is \<^verbatim>\<open>h[k] = append(h[k], v)\<close>; \<^verbatim>\<open>h.Set(k, v)\<close> is \<^verbatim>\<open>h[k] = []string{v}\<close>;
  \<^verbatim>\<open>h.Del(k)\<close> is \<^verbatim>\<open>delete(h, k)\<close>; \<^verbatim>\<open>h.Get(k)\<close> is the first value or the empty string.
  Header names are taken in the canonical form in which net/http keeps them.\<close>

definition Add :: "Header \<Rightarrow> string \<Rightarrow> string \<Rightarrow> Header" where
  "Add h k v = AList.update k (values_of h k @ [v]) h"

definition Set_hdr :: "Header \<Rightarrow> string \<Rightarrow> string \<Rightarrow> Header" where
  "Set_hdr h k v = AList.update k [v] h"

definition Del :: "Header \<Rightarrow> string \<Rightarrow> Header" where
  "Del h k = AList.delete k h"

definition Get :: "Header \<Rightarrow> string \<Rightarrow> string" where
  "Get h k = (case values_of h k of [] \<Rightarrow> [] | v # _ \<Rightarrow> v)"

text \<open>
  \<^verbatim>\<open>textproto.CanonicalMIMEHeaderKey\<close>: a name made of header-field bytes only (letters,
  digits and the token punctuation) gets its first letter and every letter after a hyphen
  in upper case and its other letters in lower case; any other name is returned as it is.
\<close>

definition lower_letters :: string where
  "lower_letters = ''abcdefghijklmnopqrstuvwxyz''"

definition upper_letters :: string where
  "upper_letters = ''ABCDEFGHIJKLMNOPQRSTUVWXYZ''"

definition validHeaderFieldByte :: "char \<Rightarrow> bool" where
  "validHeaderFieldByte c \<longleftrightarrow>
     c \<in> set (''!#$%&*+-.^_|~'' @ [CHR 0x27, CHR 0x60] @ ''0123456789''
              @ lower_letters @ upper_letters)"

definition to_upper :: "char \<Rightarrow> char" where
  "to_upper c = (case map_of (zip lower_letters upper_letters) c of None \<Rightarrow> c | Some u \<Rightarrow> u)"

definition to_lower :: "char \<Rightarrow> char" where
  "to_lower c = (case map_of (zip upper_letters lower_letters) c of None \<Rightarrow> c | Some l \<Rightarrow> l)"

fun canonical_bytes :: "bool \<Rightarrow> string \<Rightarrow> string" where
  "canonical_bytes upper [] = []"
| "canonical_bytes upper (c # cs) =
     (let c' = (if upper \<and> c \<in> set lower_letters then to_upper c
                else if \<not> upper \<and> c \<in> set upper_letters then to_lower c
                else c)
      in c' # canonical_bytes (c' = CHR ''-'') cs)"

definition CanonicalMIMEHeaderKey :: "string \<Rightarrow> string" where
  "CanonicalMIMEHeaderKey s =
     (if list_all validHeaderFieldByte s then canonical_bytes True s else s)"

text \<open>\<^verbatim>\<open>strings.Split(s, sep)\<close> for a separator of one byte: the pieces of \<open>s\<close> between the
  separators, one (empty) piece for the empty string. \<^verbatim>\<open>textproto.TrimString\<close> drops
  leading and trailing ASCII space (space, tab, line feed, carriage return).\<close>

fun Split :: "string \<Rightarrow> char \<Rightarrow> string list" where
  "Split [] sep = [[]]"
| "Split (c # cs) sep =
     (if c = sep then [] # Split cs sep
      else (case Split cs sep of [] \<Rightarrow> [[c]] | x # xs \<Rightarrow> (c # x) # xs))"

definition isASCIISpace :: "char \<Rightarrow> bool" where
  "isASCIISpace b \<longleftrightarrow> b = CHR '' '' \<or> b = CHR 0x09 \<or> b = CHR 0x0A \<or> b = CHR 0x0D"

definition TrimString :: "string \<Rightarrow> string" where
  "TrimString s = rev (dropWhile isASCIISpace (rev (dropWhile isASCIISpace s)))"

text \<open>\<^verbatim>\<open>r.URL.Query()\<close>: \<^verbatim>\<open>url.ParseQuery\<close> runs through the pairs of the query string and does
  \<^verbatim>\<open>m[key] = append(m[key], value)\<close> for each.\<close>

definition Query :: "URL \<Rightarrow> Values" where
  "Query u = fold (\<lambda>(k, v) m. Add m k v) (QueryPairs u) []"

text \<open>\<^verbatim>\<open>strings.Join(elems, sep)\<close>: nothing for no element, the element itself for one,
  otherwise the first element followed by \<^verbatim>\<open>sep + s\<close> for each later one.\<close>

fun Join :: "string list \<Rightarrow> string \<Rightarrow> string" where
  "Join [] sep = []"
| "Join [x] sep = x"
| "Join (x # xs) sep = fold (\<lambda>s b. b @ sep @ s) xs x"

text \<open>\<^verbatim>\<open>fmt.Sprintf("%d", n)\<close> for a length \<open>n\<close>: the decimal digits of \<open>n\<close>.\<close>

fun Sprintf_d :: "nat \<Rightarrow> string" where
  "Sprintf_d n =
     (if n < 10 then [''0123456789'' ! n]
      else Sprintf_d (n div 10) @ [''0123456789'' ! (n mod 10)])"

declare Sprintf_d.simps [simp del]

section \<open>generateCacheKey\<close>

text \<open>The first loop: \<^verbatim>\<open>for k := range params { keys = append(keys, k) }\<close>.\<close>

definition range_keys :: "Values \<Rightarrow> string list" where
  "range_keys params = fold (\<lambda>(k, vv) keys. keys @ [k]) params []"

text \<open>The nested loops building \<^verbatim>\<open>queryParts\<close>, with \<^verbatim>\<open>fmt.Sprintf("%s=%s", k, v)\<close>.\<close>

definition query_parts :: "Values \<Rightarrow> string list \<Rightarrow> string list" where
  "query_parts params keys =
     fold (\<lambda>k queryParts.
             fold (\<lambda>v queryParts. queryParts @ [k @ ''='' @ v]) (values_of params k) queryParts)
          keys []"

definition generateCacheKey :: "Request \<Rightarrow> string" where
  "generateCacheKey r =
     (let params = Query (URL r) in
      if length params = 0 then Method r @ '':'' @ Path (URL r)
      else
        let keys = sort (range_keys params);
            queryParts = query_parts params keys;
            sortedQuery = Join queryParts ''&''
        in Method r @ '':'' @ Path (URL r) @ ''?'' @ sortedQuery)"

section \<open>The proxy handler\<close>

text \<open>\<^verbatim>\<open>proxy.ModifyResponse\<close>. It takes the clock reading and the cache and returns the
  cache with the closure's result: \<open>Inl\<close> the error, \<open>Inr\<close> the response with its body
  replaced by the buffered copy.\<close>

definition ModifyResponse ::
  "nat \<Rightarrow> (string \<rightharpoonup> CachedResponse) \<Rightarrow> Response \<Rightarrow> (string \<rightharpoonup> CachedResponse) \<times> (string + Response)"
where
  "ModifyResponse now c resp =
     (let cacheKey = generateCacheKey (RespRequest resp) in
      case RespBody resp of
        Inl err \<Rightarrow> (c, Inl (''failed to read response body for caching: '' @ err))
      | Inr body \<Rightarrow>
          let resp' = resp\<lparr>RespBody := Inr body\<rparr> in
          if 200 \<le> RespStatusCode resp \<and> RespStatusCode resp < 300
          then (c(cacheKey \<mapsto> \<lparr>Response = body, StatusCode = RespStatusCode resp,
                                Headers = RespHeader resp, Timestamp = now\<rparr>),
                Inr resp')
          else (c, Inr resp'))"

text \<open>\<^verbatim>\<open>proxy.Director\<close>, on the outbound copy of the request.\<close>

definition Director :: "URL \<Rightarrow> Request \<Rightarrow> Request" where
  "Director originURL req =
     req\<lparr>URL := (URL req)\<lparr>URLHost := URLHost originURL, Scheme := Scheme originURL\<rparr>,
         Host := URLHost originURL,
         Header := Del (Header req) ''X-Cache''\<rparr>"

text \<open>The reverse proxy copies the response's headers onto the writer with
  \<^verbatim>\<open>for k, vv := range src { for _, v := range vv { dst.Add(k, v) } }\<close>.\<close>

definition copyHeader :: "Header \<Rightarrow> Header \<Rightarrow> Header" where
  "copyHeader dst src = fold (\<lambda>(k, vv) w. fold (\<lambda>v w. Add w k v) vv w) src dst"

text \<open>
  \<^verbatim>\<open>removeHopByHopHeaders\<close> of \<^verbatim>\<open>net/http/httputil\<close>, which the reverse proxy applies to
  the origin's response headers before it calls \<open>ModifyResponse\<close>: it deletes every header
  named in a value of \<open>Connection\<close> (the values split at commas, trimmed, and looked up
  under their canonical names), and then the hop-by-hop headers of its list
  \<^verbatim>\<open>hopHeaders\<close>.
\<close>

definition hopHeaders :: "string list" where
  "hopHeaders = [''Connection'', ''Proxy-Connection'', ''Keep-Alive'', ''Proxy-Authenticate'',
                 ''Proxy-Authorization'', ''Te'', ''Trailer'', ''Transfer-Encoding'', ''Upgrade'']"

definition removeHopByHopHeaders :: "Header \<Rightarrow> Header" where
  "removeHopByHopHeaders h =
     (let h1 = fold (\<lambda>f h.
                       fold (\<lambda>sf h. let sf' = TrimString sf in
                                     if sf' \<noteq> [] then Del h (CanonicalMIMEHeaderKey sf') else h)
                            (Split f CHR '','') h)
                    (values_of h ''Connection'') h
      in fold (\<lambda>f h. Del h f) hopHeaders h1)"

text \<open>
  \<^verbatim>\<open>proxy.ServeHTTP(w, r)\<close> of \<^verbatim>\<open>httputil.ReverseProxy\<close>, the standard library's driver of the
  two closures: it applies \<open>Director\<close> to a copy of the request, sends that to the origin
  (\<open>transport\<close>; \<open>Inl\<close> is a transport failure), removes the hop-by-hop headers from the
  response, runs \<open>ModifyResponse\<close> on the response with the outbound request attached, and
  then copies headers, status and body to the writer. On a transport failure and on an
  error from \<open>ModifyResponse\<close> its default error handler writes status 502 with no body.
  \<open>w\<close> is the writer's header map at the call. What else the library does to the outbound
  request's headers changes neither the method nor the URL and is left out, as are response
  trailers and the protocol switch that follows an answer with status 101.
\<close>

definition ServeHTTP ::
  "URL \<Rightarrow> (Request \<Rightarrow> string + OriginResponse) \<Rightarrow> nat \<Rightarrow> state \<Rightarrow> Header \<Rightarrow> Request
     \<Rightarrow> state \<times> Written"
where
  "ServeHTTP originURL transport now st w r =
     (let outreq = Director originURL r;
          st1 = st\<lparr>origin_log := origin_log st @ [outreq]\<rparr> in
      case transport outreq of
        Inl err \<Rightarrow> (st1, \<lparr>WStatus = 502, WHeader = w, WBody = []\<rparr>)
      | Inr res \<Rightarrow>
          (case ModifyResponse now (cache st1)
                  \<lparr>RespStatusCode = OStatusCode res,
                   RespHeader = removeHopByHopHeaders (OHeader res),
                   RespBody = OBody res, RespRequest = outreq\<rparr> of
             (c, Inl err) \<Rightarrow> (st1\<lparr>cache := c\<rparr>, \<lparr>WStatus = 502, WHeader = w, WBody = []\<rparr>)
           | (c, Inr resp) \<Rightarrow>
               (st1\<lparr>cache := c\<rparr>,
                \<lparr>WStatus = RespStatusCode resp,
                 WHeader = copyHeader w (RespHeader resp),
                 WBody = (case RespBody resp of Inl err \<Rightarrow> [] | Inr b \<Rightarrow> b)\<rparr>)))"

text \<open>The header loop of the HIT branch, one cached header after the other.\<close>

definition copy_cached_headers :: "Header \<Rightarrow> Header \<Rightarrow> Header" where
  "copy_cached_headers w hs =
     fold (\<lambda>(k, vv) w.
             if k = ''Connection'' \<or> k = ''Transfer-Encoding'' then w
             else fold (\<lambda>v w. Add w k v) vv w)
          hs w"

text \<open>The handler that \<^verbatim>\<open>createProxyHandler(originURL)\<close> returns, called with a fresh
  writer (no header set yet).\<close>

definition createProxyHandler ::
  "URL \<Rightarrow> (Request \<Rightarrow> string + OriginResponse) \<Rightarrow> nat \<Rightarrow> state \<Rightarrow> Request \<Rightarrow> state \<times> Written"
where
  "createProxyHandler originURL transport now st r =
     (if Method r \<noteq> ''GET''
      then ServeHTTP originURL transport now st (Set_hdr [] ''X-Cache'' ''BYPASS'') r
      else
        let cacheKey = generateCacheKey r in
        case cache st cacheKey of
          Some cachedResp \<Rightarrow>
            (let w1 = Set_hdr [] ''X-Cache'' ''HIT'';
                 w2 = copy_cached_headers w1 (Headers cachedResp);
                 w3 = Set_hdr w2 ''Content-Length'' (Sprintf_d (length (Response cachedResp)))
             in (st, \<lparr>WStatus = StatusCode cachedResp, WHeader = w3,
                       WBody = Response cachedResp\<rparr>))
        | None \<Rightarrow>
            ServeHTTP originURL transport now st (Set_hdr [] ''X-Cache'' ''MISS'') r)"

text \<open>Serving a sequence of requests one after the other, each with the clock reading
  at its arrival, collecting what was written.\<close>

fun serve_all ::
  "URL \<Rightarrow> (Request \<Rightarrow> string + OriginResponse) \<Rightarrow> state \<Rightarrow> (nat \<times> Request) list
     \<Rightarrow> state \<times> Written list"
where
  "serve_all originURL transport st [] = (st, [])"
| "serve_all originURL transport st ((now, r) # rs) =
     (case createProxyHandler originURL transport now st r of
        (st', out) \<Rightarrow>
          (case serve_all originURL transport st' rs of
             (st'', outs) \<Rightarrow> (st'', out # outs)))"

section \<open>The key algorithm in the specification's words\<close>

text \<open>The values given to one parameter name, in the order they stand in the query string.\<close>

definition param_values :: "(string \<times> string) list \<Rightarrow> string \<Rightarrow> string list" where
  "param_values q name = map snd (filter (\<lambda>p. fst p = name) q)"

text \<open>Joining with a separator, as a recursion on the list.\<close>

fun join_with :: "string \<Rightarrow> string list \<Rightarrow> string" where
  "join_with sep [] = []"
| "join_with sep [x] = x"
| "join_with sep (x # y # ys) = x @ sep @ join_with sep (y # ys)"

text \<open>Names sorted; for each name, one \<open>name=value\<close> per value in that name's order.\<close>

definition spec_pairs :: "(string \<times> string) list \<Rightarrow> string list" where
  "spec_pairs q =
     concat (map (\<lambda>name. map (\<lambda>value. name @ ''='' @ value) (param_values q name))
                 (sorted_list_of_set (fst ` set q)))"

definition spec_key :: "Request \<Rightarrow> string" where
  "spec_key r =
     (if QueryPairs (URL r) = [] then Method r @ '':'' @ Path (URL r)
      else Method r @ '':'' @ Path (URL r) @ ''?'' @ join_with ''&'' (spec_pairs (QueryPairs (URL r))))"

section \<open>Requests whose key can be read back\<close>




section \<open>Example requests\<close>

text \<open>\<^verbatim>\<open>GET /items?b=2&a=1\<close> and \<^verbatim>\<open>GET /items?a=1&b=2\<close>.\<close>

definition req_items_ba :: Request where
  "req_items_ba = \<lparr>Method = ''GET'',
     URL = \<lparr>Scheme = ''http'', URLHost = ''proxy:8080'', Path = ''/items'',
            QueryPairs = [(''b'', ''2''), (''a'', ''1'')]\<rparr>,
     Host = ''proxy:8080'', Header = []\<rparr>"

definition req_items_ab :: Request where
  "req_items_ab = \<lparr>Method = ''GET'',
     URL = \<lparr>Scheme = ''http'', URLHost = ''proxy:8080'', Path = ''/items'',
            QueryPairs = [(''a'', ''1''), (''b'', ''2'')]\<rparr>,
     Host = ''proxy:8080'', Header = []\<rparr>"


text \<open>\<^verbatim>\<open>GET /items?a=1%26b%3D2\<close>: one parameter \<open>a\<close> whose decoded value is \<open>1&b=2\<close>.\<close>

definition req_items_amp :: Request where
  "req_items_amp = req_items_ab\<lparr>URL := (URL req_items_ab)\<lparr>QueryPairs := [(''a'', ''1&b=2'')]\<rparr>\<rparr>"

section \<open>Hop-by-hop headers of a response\<close>

text \<open>The header names a response lists in its \<open>Connection\<close> header, in canonical form,
  and the names that are hop-by-hop for a response: those of the library's list and those
  the response lists itself.\<close>

definition connection_names :: "Header \<Rightarrow> string list" where
  "connection_names h =
     concat (map (\<lambda>f. map CanonicalMIMEHeaderKey
                          (filter (\<lambda>t. t \<noteq> []) (map TrimString (Split f CHR '',''))))
                 (values_of h ''Connection''))"

definition hop_by_hop :: "Header \<Rightarrow> string \<Rightarrow> bool" where
  "hop_by_hop h k \<longleftrightarrow> k \<in> set hopHeaders \<or> k \<in> set (connection_names h)"

section \<open>The storage policy\<close>

text \<open>Every entry of a cache has a status in the 2xx range.\<close>

definition only_2xx :: "(string \<rightharpoonup> CachedResponse) \<Rightarrow> bool" where
  "only_2xx c \<longleftrightarrow> (\<forall>k e. c k = Some e \<longrightarrow> 200 \<le> StatusCode e \<and> StatusCode e < 300)"

text \<open>An answer of the origin's transport that is not a response with a 2xx status: a
  response with another status, or a transport failure.\<close>

definition non_2xx :: "string + OriginResponse \<Rightarrow> bool" where
  "non_2xx a = (case a of Inl err \<Rightarrow> True
                | Inr ores \<Rightarrow> \<not> (200 \<le> OStatusCode ores \<and> OStatusCode ores < 300))"

section \<open>Example origin, responses and states\<close>

text \<open>The configured origin \<^verbatim>\<open>http://origin:9000\<close>.\<close>

definition origin_example :: URL where
  "origin_example = \<lparr>Scheme = ''http'', URLHost = ''origin:9000'', Path = [], QueryPairs = []\<rparr>"

text \<open>\<^verbatim>\<open>GET /users/1\<close> and \<^verbatim>\<open>POST /users/1\<close> as the proxy receives them.\<close>

definition req_user :: Request where
  "req_user = \<lparr>Method = ''GET'',
     URL = \<lparr>Scheme = [], URLHost = [], Path = ''/users/1'', QueryPairs = []\<rparr>,
     Host = ''proxy:8080'', Header = [(''Accept'', [''*/*''])]\<rparr>"

definition req_user_post :: Request where
  "req_user_post = req_user\<lparr>Method := ''POST''\<rparr>"

text \<open>An origin that answers every request with the same 200 response, one that answers
  404, and one whose response body cannot be read to the end.\<close>

definition resp_user :: OriginResponse where
  "resp_user = \<lparr>OStatusCode = 200,
     OHeader = [(''Content-Type'', [''application/json'']), (''Connection'', [''keep-alive'']),
                (''Keep-Alive'', [''timeout=5'']), (''Set-Cookie'', [''a=1'', ''b=2'']),
                (''Content-Length'', [''6''])],
     OBody = Inr ''{id:1}''\<rparr>"

definition transport_ok :: "Request \<Rightarrow> string + OriginResponse" where
  "transport_ok req = Inr resp_user"

definition resp_not_found :: OriginResponse where
  "resp_not_found = resp_user\<lparr>OStatusCode := 404\<rparr>"

definition transport_nf :: "Request \<Rightarrow> string + OriginResponse" where
  "transport_nf req = Inr resp_not_found"

definition resp_broken :: OriginResponse where
  "resp_broken = resp_user\<lparr>OBody := Inl ''unexpected EOF''\<rparr>"

definition transport_broken :: "Request \<Rightarrow> string + OriginResponse" where
  "transport_broken req = Inr resp_broken"

text \<open>An origin that answers \<^verbatim>\<open>GET /items?a=1%26b%3D2\<close> with 404 every time and every other
  request with 200, and one that does so for \<^verbatim>\<open>/users/1\<close>.\<close>

definition transport_amp :: "Request \<Rightarrow> string + OriginResponse" where
  "transport_amp req =
     (if QueryPairs (URL req) = [(''a'', ''1&b=2'')] then Inr resp_not_found else Inr resp_user)"

definition transport_users :: "Request \<Rightarrow> string + OriginResponse" where
  "transport_users req =
     (if Path (URL req) = ''/users/1'' then Inr resp_not_found else Inr resp_user)"

text \<open>The state at process start; the record the 200 response leaves in the cache when
  stored at clock reading 7; a record that has a \<open>Connection\<close> header (the program stores
  none itself, the reverse proxy having removed it), and states that hold it under a key.\<close>

definition empty_state :: state where
  "empty_state = \<lparr>cache = Map.empty, origin_log = []\<rparr>"

definition stored_user :: CachedResponse where
  "stored_user = \<lparr>Response = ''{id:1}'', StatusCode = 200,
     Headers = [(''Content-Type'', [''application/json'']), (''Set-Cookie'', [''a=1'', ''b=2'']),
                (''Content-Length'', [''6''])],
     Timestamp = 7\<rparr>"

definition cached_user :: CachedResponse where
  "cached_user = \<lparr>Response = ''{id:1}'', StatusCode = 200,
     Headers = [(''Content-Type'', [''application/json'']), (''Connection'', [''keep-alive'']),
                (''Set-Cookie'', [''a=1'', ''b=2'']), (''Content-Length'', [''6''])],
     Timestamp = 7\<rparr>"

definition hit_state :: state where
  "hit_state = \<lparr>cache = [''GET:/users/1'' \<mapsto> cached_user], origin_log = []\<rparr>"

definition other_state :: state where
  "other_state = \<lparr>cache = [''GET:/items'' \<mapsto> cached_user], origin_log = []\<rparr>"

text \<open>A record as forwarding a \<^verbatim>\<open>POST\<close> leaves it.\<close>

definition posted_entry :: CachedResponse where
  "posted_entry = \<lparr>Response = ''created'', StatusCode = 201, Headers = [], Timestamp = 3\<rparr>"

section \<open>Header maps and query parsing\<close>

lemma values_of_Nil [simp]: "values_of [] k = []"
  by (simp add: values_of_def)

lemma values_of_Add: "values_of (Add h k v) k' = (if k' = k then values_of h k @ [v] else values_of h k')"
  by (simp add: Add_def values_of_def update_conv')

lemma keys_Add: "fst ` set (Add h k v) = insert k (fst ` set h)"
proof -
  have "set (map fst (Add h k v)) = insert k (set (map fst h))"
    unfolding Add_def update_keys by auto
  then show ?thesis by simp
qed

lemma distinct_Add: "distinct (map fst h) \<Longrightarrow> distinct (map fst (Add h k v))"
  by (simp add: Add_def distinct_update)

lemma Add_not_Nil [simp]: "Add h k v \<noteq> []"
  by (cases h) (auto simp: Add_def)

lemma values_of_Set: "values_of (Set_hdr h k v) k' = (if k' = k then [v] else values_of h k')"
  by (simp add: Set_hdr_def values_of_def update_conv')

lemma values_of_Del: "values_of (Del h k) k' = (if k' = k then [] else values_of h k')"
  by (simp add: Del_def values_of_def delete_conv')

lemma values_of_parse_into:
  "values_of (fold (\<lambda>(k, v) m. Add m k v) q m) k = values_of m k @ param_values q k"
  by (induction q arbitrary: m) (auto simp: param_values_def values_of_Add)

lemma keys_parse_into:
  "fst ` set (fold (\<lambda>(k, v) m. Add m k v) q m) = fst ` set m \<union> fst ` set q"
  by (induction q arbitrary: m) (simp_all add: keys_Add case_prod_beta)

lemma distinct_parse_into:
  "distinct (map fst m) \<Longrightarrow> distinct (map fst (fold (\<lambda>(k, v) m. Add m k v) q m))"
  by (induction q arbitrary: m) (auto simp: distinct_Add)

lemma parse_into_Nil_iff:
  "fold (\<lambda>(k, v) m. Add m k v) q m = [] \<longleftrightarrow> q = [] \<and> m = []"
  by (induction q arbitrary: m) (simp_all add: case_prod_beta)

lemma values_of_Query: "values_of (Query u) k = param_values (QueryPairs u) k"
  by (simp add: Query_def values_of_parse_into)

lemma keys_Query: "fst ` set (Query u) = fst ` set (QueryPairs u)"
  by (simp add: Query_def keys_parse_into)

lemma distinct_Query: "distinct (map fst (Query u))"
  by (simp add: Query_def distinct_parse_into)

lemma Query_Nil_iff: "Query u = [] \<longleftrightarrow> QueryPairs u = []"
  by (simp add: Query_def parse_into_Nil_iff)

lemma range_keys_fold: "fold (\<lambda>(k, vv) keys. keys @ [k]) params acc = acc @ map fst params"
  by (induction params arbitrary: acc) auto

lemma range_keys_eq: "range_keys params = map fst params"
  by (simp add: range_keys_def range_keys_fold)

lemma sort_keys_Query: "sort (range_keys (Query u)) = sorted_list_of_set (fst ` set (QueryPairs u))"
proof -
  have "sorted_list_of_set (set (map fst (Query u))) = sort (remdups (map fst (Query u)))"
    by (rule sorted_list_of_set_sort_remdups)
  also have "remdups (map fst (Query u)) = map fst (Query u)"
    by (rule distinct_remdups_id) (rule distinct_Query)
  finally have "sort (map fst (Query u)) = sorted_list_of_set (fst ` set (Query u))"
    by simp
  then show ?thesis by (simp add: range_keys_eq keys_Query)
qed

lemma inner_parts_fold:
  "fold (\<lambda>v queryParts. queryParts @ [f v]) vs acc = acc @ map f vs"
  by (induction vs arbitrary: acc) auto

lemma outer_parts_fold:
  "fold (\<lambda>k queryParts. fold (\<lambda>v queryParts. queryParts @ [f k v]) (g k) queryParts) keys acc
   = acc @ concat (map (\<lambda>k. map (f k) (g k)) keys)"
  by (induction keys arbitrary: acc) (auto simp: inner_parts_fold)

lemma query_parts_eq:
  "query_parts params keys = concat (map (\<lambda>k. map (\<lambda>v. k @ ''='' @ v) (values_of params k)) keys)"
  by (simp add: query_parts_def outer_parts_fold)

lemma Join_fold: "fold (\<lambda>s b. b @ sep @ s) xs acc = acc @ concat (map (\<lambda>s. sep @ s) xs)"
  by (induction xs arbitrary: acc) auto

lemma join_with_Cons: "join_with sep (x # xs) = x @ concat (map (\<lambda>s. sep @ s) xs)"
  by (induction xs arbitrary: x) auto

lemma Join_eq: "Join xs sep = join_with sep xs"
proof (cases xs)
  case Nil then show ?thesis by simp
next
  case (Cons x ys)
  then show ?thesis by (cases ys) (simp_all add: Join_fold join_with_Cons del: join_with.simps)
qed

lemma query_parts_Query:
  "query_parts (Query u) (sort (range_keys (Query u))) = spec_pairs (QueryPairs u)"
  by (simp add: query_parts_eq sort_keys_Query spec_pairs_def values_of_Query)

section \<open>The cache key\<close>

lemma generateCacheKey_unfold:
  "generateCacheKey r =
     (if QueryPairs (URL r) = [] then Method r @ '':'' @ Path (URL r)
      else Method r @ '':'' @ Path (URL r) @ ''?'' @ join_with ''&'' (spec_pairs (QueryPairs (URL r))))"
  by (simp add: generateCacheKey_def Let_def Query_Nil_iff query_parts_Query Join_eq)

text \<open>
  Claim C2. For every request, \<open>generateCacheKey\<close> computes the key of the specified
  algorithm: \<open>METHOD:PATH\<close> when the request has no query parameter; otherwise the
  parameter names sorted lexicographically, for each name in that order one \<open>name=value\<close>
  per value in the order the values have in the query string, all joined with \<open>&\<close>
  and put after \<open>METHOD:PATH?\<close>. The code's loops, its map of parameters and
  \<^verbatim>\<open>strings.Join\<close> on one side, the specification's wording (\<open>spec_key\<close>) on the other.
\<close>

theorem generateCacheKey_follows_spec: "generateCacheKey r = spec_key r"
  by (simp add: generateCacheKey_unfold spec_key_def)

subsection \<open>Parameter order\<close>

lemma param_values_Nil_iff: "param_values q name = [] \<longleftrightarrow> name \<notin> fst ` set q"
  by (induction q) (auto simp: param_values_def)

lemma same_values_same_names:
  assumes "\<forall>name. param_values q1 name = param_values q2 name"
  shows "fst ` set q1 = fst ` set q2"
proof -
  have "name \<in> fst ` set q1 \<longleftrightarrow> name \<in> fst ` set q2" for name
    using assms param_values_Nil_iff [of q1 name] param_values_Nil_iff [of q2 name] by simp
  then show ?thesis by blast
qed

lemma same_values_spec_pairs:
  assumes "\<forall>name. param_values q1 name = param_values q2 name"
  shows "spec_pairs q1 = spec_pairs q2"
  using assms same_values_same_names [OF assms] by (simp add: spec_pairs_def)

lemma same_values_Nil:
  assumes "\<forall>name. param_values q1 name = param_values q2 name"
  shows "q1 = [] \<longleftrightarrow> q2 = []"
  using same_values_same_names [OF assms] by auto

text \<open>
  Claim C3. Two requests with the same method, the same path and, for every parameter
  name, the same sequence of values (so they differ at most in the order in which distinct
  names appear in the query string) have the same key.
\<close>

theorem generateCacheKey_param_order:
  assumes "Method r1 = Method r2"
    and "Path (URL r1) = Path (URL r2)"
    and "\<forall>name. param_values (QueryPairs (URL r1)) name = param_values (QueryPairs (URL r2)) name"
  shows "generateCacheKey r1 = generateCacheKey r2"
  using assms(1,2) same_values_spec_pairs [OF assms(3)] same_values_Nil [OF assms(3)]
  by (simp add: generateCacheKey_unfold)

text \<open>The witness: \<^verbatim>\<open>GET /items?b=2&a=1\<close> and \<^verbatim>\<open>GET /items?a=1&b=2\<close>, two different
  query strings.\<close>

theorem generateCacheKey_param_order_witness:
  "Method req_items_ba = Method req_items_ab \<and>
   Path (URL req_items_ba) = Path (URL req_items_ab) \<and>
   (\<forall>name. param_values (QueryPairs (URL req_items_ba)) name
            = param_values (QueryPairs (URL req_items_ab)) name) \<and>
   QueryPairs (URL req_items_ba) \<noteq> QueryPairs (URL req_items_ab) \<and>
   generateCacheKey req_items_ba = generateCacheKey req_items_ab"
proof -
  have v: "\<forall>name. param_values (QueryPairs (URL req_items_ba)) name
            = param_values (QueryPairs (URL req_items_ab)) name"
    by (simp add: param_values_def req_items_ba_def req_items_ab_def)
  have m: "Method req_items_ba = Method req_items_ab"
    by (simp add: req_items_ba_def req_items_ab_def)
  have p: "Path (URL req_items_ba) = Path (URL req_items_ab)"
    by (simp add: req_items_ba_def req_items_ab_def)
  have d: "QueryPairs (URL req_items_ba) \<noteq> QueryPairs (URL req_items_ab)"
    by (simp add: req_items_ba_def req_items_ab_def)
  from generateCacheKey_param_order [OF m p v] v m p d show ?thesis by blast
qed

subsection \<open>Collisions\<close>

lemma split_at_first:
  "c \<notin> set a \<Longrightarrow> c \<notin> set a' \<Longrightarrow> a @ c # b = a' @ c # b' \<Longrightarrow> a = a' \<and> b = b'"
proof (induction a arbitrary: a')
  case Nil
  then show ?case by (cases a') auto
next
  case (Cons x a)
  then show ?case by (cases a') auto
qed














section \<open>The handler\<close>

subsection \<open>Copying headers\<close>

lemma values_of_Cons: "values_of ((k, vv) # hs) k' = (if k' = k then vv else values_of hs k')"
  by (simp add: values_of_def)

lemma values_of_absent: "k \<notin> fst ` set hs \<Longrightarrow> values_of hs k = []"
  by (simp add: values_of_def map_of_eq_None_iff [THEN iffD2])

lemma values_of_Add_fold:
  "values_of (fold (\<lambda>v w. Add w k v) vv w) k'
     = (if k' = k then values_of w k @ vv else values_of w k')"
  by (induction vv arbitrary: w) (simp_all add: values_of_Add)

lemma values_of_fold_headers:
  assumes "distinct (map fst hs)"
  shows "values_of (fold (\<lambda>(k, vv) w. if skip k then w else fold (\<lambda>v w. Add w k v) vv w) hs w) k'
           = (if skip k' then values_of w k' else values_of w k' @ values_of hs k')"
  using assms
proof (induction hs arbitrary: w)
  case Nil
  then show ?case by simp
next
  case (Cons p hs)
  obtain k vv where p: "p = (k, vv)" by (cases p)
  from Cons.prems p have d: "distinct (map fst hs)" and n: "k \<notin> fst ` set hs" by auto
  show ?case
    using Cons.IH [OF d] values_of_absent [OF n]
    by (simp add: p values_of_Cons values_of_Add_fold)
qed

lemma values_of_copy_cached_headers:
  assumes "distinct (map fst hs)"
  shows "values_of (copy_cached_headers w hs) k
           = (if k = ''Connection'' \<or> k = ''Transfer-Encoding'' then values_of w k
              else values_of w k @ values_of hs k)"
  unfolding copy_cached_headers_def
  using values_of_fold_headers [OF assms, of "\<lambda>k. k = ''Connection'' \<or> k = ''Transfer-Encoding''" w k]
  by simp

lemma values_of_copyHeader:
  assumes "distinct (map fst src)"
  shows "values_of (copyHeader dst src) k = values_of dst k @ values_of src k"
proof -
  have "copyHeader dst src
          = fold (\<lambda>(k, vv) w. if (\<lambda>k. False) k then w else fold (\<lambda>v w. Add w k v) vv w) src dst"
    by (simp add: copyHeader_def)
  then show ?thesis
    using values_of_fold_headers [OF assms, of "\<lambda>k. False" dst k] by simp
qed

lemma Director_key: "generateCacheKey (Director originURL r) = generateCacheKey r"
  by (simp add: generateCacheKey_def Director_def Query_def Let_def)

lemma values_of_fold_headers_prefix:
  "\<exists>ys. values_of (fold (\<lambda>(k, vv) w. if skip k then w else fold (\<lambda>v w. Add w k v) vv w) hs w) k'
           = values_of w k' @ ys"
proof (induction hs arbitrary: w)
  case Nil
  then show ?case by simp
next
  case (Cons p hs)
  obtain k vv where p: "p = (k, vv)" by (cases p)
  show ?case
  proof (cases "skip k")
    case True
    with Cons.IH [of w] p show ?thesis by simp
  next
    case False
    from Cons.IH [of "fold (\<lambda>v w. Add w k v) vv w"]
    obtain ys where
      "values_of (fold (\<lambda>(k, vv) w. if skip k then w else fold (\<lambda>v w. Add w k v) vv w) hs
                   (fold (\<lambda>v w. Add w k v) vv w)) k'
         = values_of (fold (\<lambda>v w. Add w k v) vv w) k' @ ys"
      by blast
    with False p show ?thesis by (simp add: values_of_Add_fold)
  qed
qed

lemma Get_copyHeader:
  assumes "values_of dst k = v # vs"
  shows "Get (copyHeader dst src) k = v"
proof -
  have "copyHeader dst src
          = fold (\<lambda>(k, vv) w. if (\<lambda>k. False) k then w else fold (\<lambda>v w. Add w k v) vv w) src dst"
    by (simp add: copyHeader_def)
  with values_of_fold_headers_prefix [of "\<lambda>k. False" src dst k] assms
  show ?thesis by (auto simp: Get_def)
qed

lemma Get_marker: "Get (copyHeader (Set_hdr [] ''X-Cache'' m) src) ''X-Cache'' = m"
  by (rule Get_copyHeader [of _ _ _ "[]"]) (simp add: values_of_Set)

subsection \<open>Removing hop-by-hop headers\<close>

lemma values_of_fold_Del:
  "values_of (fold (\<lambda>k h. Del h k) ks h) k' = (if k' \<in> set ks then [] else values_of h k')"
  by (induction ks arbitrary: h) (simp_all add: values_of_Del)

lemma distinct_fold_Del:
  "distinct (map fst h) \<Longrightarrow> distinct (map fst (fold (\<lambda>k h. Del h k) ks h))"
  by (induction ks arbitrary: h) (simp_all add: Del_def distinct_delete)

lemma fold_Del_append:
  "fold (\<lambda>k h. Del h k) ks (fold (\<lambda>k h. Del h k) js h) = fold (\<lambda>k h. Del h k) (js @ ks) h"
  by simp

lemma connection_pieces_fold:
  "fold (\<lambda>sf h. if TrimString sf \<noteq> [] then Del h (CanonicalMIMEHeaderKey (TrimString sf))
                 else h) sfs h
     = fold (\<lambda>k h. Del h k)
            (map CanonicalMIMEHeaderKey (filter (\<lambda>t. t \<noteq> []) (map TrimString sfs))) h"
  by (induction sfs arbitrary: h) simp_all

lemma connection_values_fold:
  "fold (\<lambda>f h. fold (\<lambda>sf h. if TrimString sf \<noteq> []
                              then Del h (CanonicalMIMEHeaderKey (TrimString sf)) else h)
                     (Split f CHR '','') h) fs h
     = fold (\<lambda>k h. Del h k)
            (concat (map (\<lambda>f. map CanonicalMIMEHeaderKey
                                 (filter (\<lambda>t. t \<noteq> []) (map TrimString (Split f CHR '',''))))
                         fs)) h"
  by (induction fs arbitrary: h) (simp_all add: connection_pieces_fold)

lemma removeHopByHopHeaders_fold:
  "removeHopByHopHeaders h = fold (\<lambda>k h. Del h k) (connection_names h @ hopHeaders) h"
  by (simp add: removeHopByHopHeaders_def connection_names_def connection_values_fold Let_def)

lemma values_of_removeHopByHopHeaders:
  "values_of (removeHopByHopHeaders h) k = (if hop_by_hop h k then [] else values_of h k)"
  by (auto simp: removeHopByHopHeaders_fold values_of_fold_Del hop_by_hop_def)

lemma distinct_removeHopByHopHeaders:
  "distinct (map fst h) \<Longrightarrow> distinct (map fst (removeHopByHopHeaders h))"
  by (simp only: removeHopByHopHeaders_fold distinct_fold_Del)

lemma hop_by_hop_listed:
  "hop_by_hop h ''Connection''" "hop_by_hop h ''Transfer-Encoding''"
  by (simp_all add: hop_by_hop_def hopHeaders_def)

lemma stored_headers: "removeHopByHopHeaders (OHeader resp_user) = Headers stored_user"
  by code_simp

subsection \<open>The forwarding pipeline\<close>

lemma ServeHTTP_log:
  "origin_log (fst (ServeHTTP U T now st w r)) = origin_log st @ [Director U r]"
  by (simp add: ServeHTTP_def ModifyResponse_def Let_def split: sum.splits)

lemma ServeHTTP_cache:
  "cache (fst (ServeHTTP U T now st w r)) =
     (case T (Director U r) of
        Inl e \<Rightarrow> cache st
      | Inr ores \<Rightarrow>
          (case OBody ores of
             Inl e \<Rightarrow> cache st
           | Inr body \<Rightarrow>
               if 200 \<le> OStatusCode ores \<and> OStatusCode ores < 300
               then (cache st)(generateCacheKey r \<mapsto>
                      \<lparr>Response = body, StatusCode = OStatusCode ores,
                       Headers = removeHopByHopHeaders (OHeader ores), Timestamp = now\<rparr>)
               else cache st))"
proof (cases "T (Director U r)")
  case (Inl e)
  then show ?thesis by (simp add: ServeHTTP_def Let_def)
next
  case (Inr ores)
  then show ?thesis
    by (cases "OBody ores") (simp_all add: ServeHTTP_def ModifyResponse_def Let_def Director_key)
qed

lemma ServeHTTP_written:
  "snd (ServeHTTP U T now st w r) =
     (case T (Director U r) of
        Inl e \<Rightarrow> \<lparr>WStatus = 502, WHeader = w, WBody = []\<rparr>
      | Inr ores \<Rightarrow>
          (case OBody ores of
             Inl e \<Rightarrow> \<lparr>WStatus = 502, WHeader = w, WBody = []\<rparr>
           | Inr body \<Rightarrow>
               \<lparr>WStatus = OStatusCode ores,
                WHeader = copyHeader w (removeHopByHopHeaders (OHeader ores)),
                WBody = body\<rparr>))"
  by (simp add: ServeHTTP_def ModifyResponse_def Let_def split: sum.splits)

lemma ServeHTTP_state:
  "fst (ServeHTTP U T now st w r)
     = st\<lparr>cache := cache (fst (ServeHTTP U T now st w r)),
          origin_log := origin_log st @ [Director U r]\<rparr>"
  by (simp add: ServeHTTP_def ModifyResponse_def Let_def split: sum.splits)

lemma handler_bypass:
  "Method r \<noteq> ''GET'' \<Longrightarrow>
   createProxyHandler U T now st r = ServeHTTP U T now st (Set_hdr [] ''X-Cache'' ''BYPASS'') r"
  by (simp add: createProxyHandler_def)

lemma handler_miss:
  "Method r = ''GET'' \<Longrightarrow> cache st (generateCacheKey r) = None \<Longrightarrow>
   createProxyHandler U T now st r = ServeHTTP U T now st (Set_hdr [] ''X-Cache'' ''MISS'') r"
  by (simp add: createProxyHandler_def)

lemma handler_hit:
  "Method r = ''GET'' \<Longrightarrow> cache st (generateCacheKey r) = Some c \<Longrightarrow>
   createProxyHandler U T now st r =
     (st, \<lparr>WStatus = StatusCode c,
           WHeader = Set_hdr (copy_cached_headers (Set_hdr [] ''X-Cache'' ''HIT'') (Headers c))
                       ''Content-Length'' (Sprintf_d (length (Response c))),
           WBody = Response c\<rparr>)"
  by (simp add: createProxyHandler_def Let_def)

subsection \<open>Serving from the cache and storing\<close>

lemma key_req_user: "generateCacheKey req_user = ''GET:/users/1''"
  by (simp add: generateCacheKey_unfold req_user_def)

lemma key_req_user_post: "generateCacheKey req_user_post = ''POST:/users/1''"
  by (simp add: generateCacheKey_unfold req_user_post_def req_user_def)

text \<open>
  Claim C1 says that the response to a request that is not a \<^verbatim>\<open>GET\<close> is never stored.
  The handler's comment says the same (only \<^verbatim>\<open>GET\<close> requests are cached), and such a request
  is forwarded with the marker \<open>BYPASS\<close>; but \<open>ModifyResponse\<close> runs on every response
  that comes back through the reverse proxy and does not look at the method. Here the code
  is run on \<^verbatim>\<open>POST /users/1\<close> against an empty cache and an origin answering 200: the
  response is in the cache afterwards, under the key \<open>POST:/users/1\<close>.
\<close>

theorem post_response_is_stored:
  "Get (WHeader (snd (createProxyHandler origin_example transport_ok 7 empty_state req_user_post)))
     ''X-Cache'' = ''BYPASS'' \<and>
   cache (fst (createProxyHandler origin_example transport_ok 7 empty_state req_user_post))
     ''POST:/users/1'' = Some stored_user"
proof -
  have m: "Method req_user_post \<noteq> ''GET''" by (simp add: req_user_post_def)
  have b: "OBody resp_user = Inr ''{id:1}''" and s: "OStatusCode resp_user = 200"
    by (simp_all add: resp_user_def)
  show ?thesis
    by (simp add: handler_bypass [OF m] ServeHTTP_cache ServeHTTP_written Get_marker
        key_req_user_post transport_ok_def b s stored_headers stored_user_def empty_state_def)
qed

lemma hit_lemma:
  assumes "Method r = ''GET''"
    and "cache st (generateCacheKey r) = Some c"
    and "distinct (map fst (Headers c))"
  shows "fst (createProxyHandler U T now st r) = st \<and>
         WStatus (snd (createProxyHandler U T now st r)) = StatusCode c \<and>
         WBody (snd (createProxyHandler U T now st r)) = Response c \<and>
         Get (WHeader (snd (createProxyHandler U T now st r))) ''X-Cache'' = ''HIT'' \<and>
         values_of (WHeader (snd (createProxyHandler U T now st r))) ''X-Cache''
           = ''HIT'' # values_of (Headers c) ''X-Cache'' \<and>
         values_of (WHeader (snd (createProxyHandler U T now st r))) ''Content-Length''
           = [Sprintf_d (length (Response c))] \<and>
         values_of (WHeader (snd (createProxyHandler U T now st r))) ''Connection'' = [] \<and>
         values_of (WHeader (snd (createProxyHandler U T now st r))) ''Transfer-Encoding'' = [] \<and>
         (\<forall>k. k \<noteq> ''X-Cache'' \<and> k \<noteq> ''Content-Length'' \<and> k \<noteq> ''Connection'' \<and>
              k \<noteq> ''Transfer-Encoding'' \<longrightarrow>
              values_of (WHeader (snd (createProxyHandler U T now st r))) k
                = values_of (Headers c) k)"
  by (simp add: handler_hit [OF assms(1,2)] values_of_Set
      values_of_copy_cached_headers [OF assms(3)] Get_def)

text \<open>
  Claim C6. A \<^verbatim>\<open>GET\<close> request whose key is in the cache is answered from the record: the
  state is returned as it was (no call to the origin is logged, the cache is the same); the
  status and the body are the record's; \<^verbatim>\<open>Get("X-Cache")\<close> is \<open>HIT\<close>, the record's own
  \<open>X-Cache\<close> values following it; \<open>Content-Length\<close> is the decimal length of the
  record's body, whatever the record had; \<open>Connection\<close> and \<open>Transfer-Encoding\<close> are
  absent; every other header has the record's value sequence. The record's header map has
  each name once, as a Go map does.
\<close>

theorem hit_response:
  assumes "Method r = ''GET''"
    and "cache st (generateCacheKey r) = Some c"
    and "distinct (map fst (Headers c))"
  shows "fst (createProxyHandler U T now st r) = st \<and>
         WStatus (snd (createProxyHandler U T now st r)) = StatusCode c \<and>
         WBody (snd (createProxyHandler U T now st r)) = Response c \<and>
         Get (WHeader (snd (createProxyHandler U T now st r))) ''X-Cache'' = ''HIT'' \<and>
         values_of (WHeader (snd (createProxyHandler U T now st r))) ''X-Cache''
           = ''HIT'' # values_of (Headers c) ''X-Cache'' \<and>
         values_of (WHeader (snd (createProxyHandler U T now st r))) ''Content-Length''
           = [Sprintf_d (length (Response c))] \<and>
         values_of (WHeader (snd (createProxyHandler U T now st r))) ''Connection'' = [] \<and>
         values_of (WHeader (snd (createProxyHandler U T now st r))) ''Transfer-Encoding'' = [] \<and>
         (\<forall>k. k \<noteq> ''X-Cache'' \<and> k \<noteq> ''Content-Length'' \<and> k \<noteq> ''Connection'' \<and>
              k \<noteq> ''Transfer-Encoding'' \<longrightarrow>
              values_of (WHeader (snd (createProxyHandler U T now st r))) k
                = values_of (Headers c) k)"
  by (rule hit_lemma [OF assms])

theorem hit_response_witness:
  "Method req_user = ''GET'' \<and>
   cache hit_state (generateCacheKey req_user) = Some cached_user \<and>
   distinct (map fst (Headers cached_user)) \<and>
   createProxyHandler origin_example transport_nf 9 hit_state req_user =
     (hit_state,
      \<lparr>WStatus = 200,
       WHeader = [(''X-Cache'', [''HIT'']), (''Content-Type'', [''application/json'']),
                  (''Set-Cookie'', [''a=1'', ''b=2'']), (''Content-Length'', [''6''])],
       WBody = ''{id:1}''\<rparr>)"
proof -
  have m: "Method req_user = ''GET''" by (simp add: req_user_def)
  have c: "cache hit_state (generateCacheKey req_user) = Some cached_user"
    by (simp add: key_req_user hit_state_def)
  have d: "distinct (map fst (Headers cached_user))"
    by (simp add: cached_user_def resp_user_def)
  have "createProxyHandler origin_example transport_nf 9 hit_state req_user =
     (hit_state,
      \<lparr>WStatus = 200,
       WHeader = [(''X-Cache'', [''HIT'']), (''Content-Type'', [''application/json'']),
                  (''Set-Cookie'', [''a=1'', ''b=2'']), (''Content-Length'', [''6''])],
       WBody = ''{id:1}''\<rparr>)"
    by (simp add: handler_hit [OF m c] cached_user_def resp_user_def copy_cached_headers_def
        Set_hdr_def Add_def values_of_def Sprintf_d.simps)
  with hit_response [OF m c d, of origin_example transport_nf 9] m c d
  show ?thesis by simp
qed

lemma miss_then_hit_lemma:
  assumes "Method r = ''GET''"
    and "cache st (generateCacheKey r) = None"
    and "T (Director U r) = Inr ores"
    and "OBody ores = Inr body"
    and "200 \<le> OStatusCode ores \<and> OStatusCode ores < 300"
    and "distinct (map fst (OHeader ores))"
  shows "Get (WHeader (snd (createProxyHandler U T now1 st r))) ''X-Cache'' = ''MISS'' \<and>
         WStatus (snd (createProxyHandler U T now1 st r)) = OStatusCode ores \<and>
         WBody (snd (createProxyHandler U T now1 st r)) = body \<and>
         cache (fst (createProxyHandler U T now1 st r)) (generateCacheKey r)
           = Some \<lparr>Response = body, StatusCode = OStatusCode ores,
                   Headers = removeHopByHopHeaders (OHeader ores), Timestamp = now1\<rparr> \<and>
         Get (WHeader (snd (createProxyHandler U T now2 (fst (createProxyHandler U T now1 st r)) r)))
             ''X-Cache'' = ''HIT'' \<and>
         WStatus (snd (createProxyHandler U T now2 (fst (createProxyHandler U T now1 st r)) r))
           = OStatusCode ores \<and>
         WBody (snd (createProxyHandler U T now2 (fst (createProxyHandler U T now1 st r)) r))
           = body \<and>
         (\<forall>k. k \<noteq> ''X-Cache'' \<and> k \<noteq> ''Content-Length'' \<longrightarrow>
              values_of (WHeader (snd (createProxyHandler U T now2 (fst (createProxyHandler U T now1 st r)) r))) k
                = (if hop_by_hop (OHeader ores) k then [] else values_of (OHeader ores) k)) \<and>
         values_of (WHeader (snd (createProxyHandler U T now2 (fst (createProxyHandler U T now1 st r)) r))) ''X-Cache''
           = ''HIT'' # (if hop_by_hop (OHeader ores) ''X-Cache'' then []
                        else values_of (OHeader ores) ''X-Cache'') \<and>
         values_of (WHeader (snd (createProxyHandler U T now2 (fst (createProxyHandler U T now1 st r)) r))) ''Content-Length''
           = [Sprintf_d (length body)] \<and>
         origin_log (fst (createProxyHandler U T now2 (fst (createProxyHandler U T now1 st r)) r))
           = origin_log st @ [Director U r]"
proof -
  let ?c = "\<lparr>Response = body, StatusCode = OStatusCode ores,
             Headers = removeHopByHopHeaders (OHeader ores), Timestamp = now1\<rparr>"
  let ?st1 = "fst (createProxyHandler U T now1 st r)"
  have h1: "createProxyHandler U T now1 st r
              = ServeHTTP U T now1 st (Set_hdr [] ''X-Cache'' ''MISS'') r"
    by (rule handler_miss [OF assms(1,2)])
  have w1: "snd (createProxyHandler U T now1 st r)
              = \<lparr>WStatus = OStatusCode ores,
                 WHeader = copyHeader (Set_hdr [] ''X-Cache'' ''MISS'')
                             (removeHopByHopHeaders (OHeader ores)),
                 WBody = body\<rparr>"
    by (simp add: h1 ServeHTTP_written assms(3,4))
  have c1: "cache ?st1 (generateCacheKey r) = Some ?c"
    by (simp add: h1 ServeHTTP_cache assms(3,4,5))
  have l1: "origin_log ?st1 = origin_log st @ [Director U r]"
    by (simp add: h1 ServeHTTP_log)
  have d: "distinct (map fst (Headers ?c))"
    using distinct_removeHopByHopHeaders [OF assms(6)] by simp
  note hit = hit_lemma [OF assms(1) c1 d, of U T now2]
  have g1: "Get (WHeader (snd (createProxyHandler U T now1 st r))) ''X-Cache'' = ''MISS''"
    by (simp add: w1 Get_marker)
  have others: "values_of (WHeader (snd (createProxyHandler U T now2 ?st1 r))) k
                  = (if hop_by_hop (OHeader ores) k then [] else values_of (OHeader ores) k)"
    if "k \<noteq> ''X-Cache''" and "k \<noteq> ''Content-Length''" for k
  proof (cases "k = ''Connection'' \<or> k = ''Transfer-Encoding''")
    case True
    with hit hop_by_hop_listed [of "OHeader ores"] show ?thesis by auto
  next
    case False
    with that hit
    have "values_of (WHeader (snd (createProxyHandler U T now2 ?st1 r))) k
            = values_of (Headers ?c) k"
      by blast
    then show ?thesis by (simp add: values_of_removeHopByHopHeaders)
  qed
  have x: "values_of (WHeader (snd (createProxyHandler U T now2 ?st1 r))) ''X-Cache''
             = ''HIT'' # (if hop_by_hop (OHeader ores) ''X-Cache'' then []
                          else values_of (OHeader ores) ''X-Cache'')"
    using hit by (simp add: values_of_removeHopByHopHeaders)
  from hit g1 others x show ?thesis
    by (simp add: w1 c1 l1)
qed

text \<open>
  Claim C7, as stated, fails: the reverse proxy removes every hop-by-hop header from the
  origin's response before \<open>ModifyResponse\<close> stores it, not only \<open>Connection\<close> and
  \<open>Transfer-Encoding\<close>. The origin answers \<^verbatim>\<open>GET /users/1\<close> with \<^verbatim>\<open>Keep-Alive: timeout=5\<close>
  among its headers; the second answer is a \<open>HIT\<close> and has no \<open>Keep-Alive\<close> header.
\<close>

theorem hit_drops_keep_alive:
  "Get (WHeader (snd (createProxyHandler origin_example transport_ok 9
          (fst (createProxyHandler origin_example transport_ok 7 empty_state req_user)) req_user))) ''X-Cache'' = ''HIT'' \<and>
   values_of (OHeader resp_user) ''Keep-Alive'' = [''timeout=5''] \<and>
   values_of (WHeader (snd (createProxyHandler origin_example transport_ok 9
          (fst (createProxyHandler origin_example transport_ok 7 empty_state req_user)) req_user))) ''Keep-Alive'' = []"
proof -
  have m: "Method req_user = ''GET''" by (simp add: req_user_def)
  have c: "cache empty_state (generateCacheKey req_user) = None" by (simp add: empty_state_def)
  have t: "transport_ok (Director origin_example req_user) = Inr resp_user"
    by (simp add: transport_ok_def)
  have b: "OBody resp_user = Inr ''{id:1}''" by (simp add: resp_user_def)
  have s: "200 \<le> OStatusCode resp_user \<and> OStatusCode resp_user < 300"
    by (simp add: resp_user_def)
  have d: "distinct (map fst (OHeader resp_user))" by (simp add: resp_user_def)
  have k: "hop_by_hop (OHeader resp_user) ''Keep-Alive''"
    by (simp add: hop_by_hop_def hopHeaders_def)
  have v: "values_of (OHeader resp_user) ''Keep-Alive'' = [''timeout=5'']"
    by (simp add: values_of_def resp_user_def)
  from miss_then_hit_lemma [where T = transport_ok and U = origin_example and r = req_user
      and st = empty_state and ?now1.0 = 7 and ?now2.0 = 9, OF m c t b s d] k v
  show ?thesis by simp
qed

text \<open>
  Claim C7, amended. The same \<^verbatim>\<open>GET\<close> request served twice, the key not in the cache at
  first and the origin answering 2xx with a readable body: the first answer carries
  \<open>MISS\<close> with the origin's status and body and leaves the response in the cache; the
  second carries \<open>HIT\<close> and the origin's status and body. Its headers are the origin's
  without the hop-by-hop ones, which are \<open>Connection\<close> and every header that
  \<open>Connection\<close> names, \<open>Proxy-Connection\<close>, \<open>Keep-Alive\<close>, \<open>Proxy-Authenticate\<close>,
  \<open>Proxy-Authorization\<close>, \<open>Te\<close>, \<open>Trailer\<close>, \<open>Transfer-Encoding\<close> and \<open>Upgrade\<close>;
  and the proxy writes two headers itself: \<open>X-Cache\<close> has \<open>HIT\<close> before the origin's
  values, and \<open>Content-Length\<close> is the length of the body. The origin is called once.
\<close>

theorem miss_then_hit:
  assumes "Method r = ''GET''"
    and "cache st (generateCacheKey r) = None"
    and "T (Director U r) = Inr ores"
    and "OBody ores = Inr body"
    and "200 \<le> OStatusCode ores \<and> OStatusCode ores < 300"
    and "distinct (map fst (OHeader ores))"
  shows "Get (WHeader (snd (createProxyHandler U T now1 st r))) ''X-Cache'' = ''MISS'' \<and>
         WStatus (snd (createProxyHandler U T now1 st r)) = OStatusCode ores \<and>
         WBody (snd (createProxyHandler U T now1 st r)) = body \<and>
         cache (fst (createProxyHandler U T now1 st r)) (generateCacheKey r)
           = Some \<lparr>Response = body, StatusCode = OStatusCode ores,
                   Headers = removeHopByHopHeaders (OHeader ores), Timestamp = now1\<rparr> \<and>
         Get (WHeader (snd (createProxyHandler U T now2 (fst (createProxyHandler U T now1 st r)) r)))
             ''X-Cache'' = ''HIT'' \<and>
         WStatus (snd (createProxyHandler U T now2 (fst (createProxyHandler U T now1 st r)) r))
           = OStatusCode ores \<and>
         WBody (snd (createProxyHandler U T now2 (fst (createProxyHandler U T now1 st r)) r))
           = body \<and>
         (\<forall>k. k \<noteq> ''X-Cache'' \<and> k \<noteq> ''Content-Length'' \<longrightarrow>
              values_of (WHeader (snd (createProxyHandler U T now2 (fst (createProxyHandler U T now1 st r)) r))) k
                = (if hop_by_hop (OHeader ores) k then [] else values_of (OHeader ores) k)) \<and>
         values_of (WHeader (snd (createProxyHandler U T now2 (fst (createProxyHandler U T now1 st r)) r))) ''X-Cache''
           = ''HIT'' # (if hop_by_hop (OHeader ores) ''X-Cache'' then []
                        else values_of (OHeader ores) ''X-Cache'') \<and>
         values_of (WHeader (snd (createProxyHandler U T now2 (fst (createProxyHandler U T now1 st r)) r))) ''Content-Length''
           = [Sprintf_d (length body)] \<and>
         origin_log (fst (createProxyHandler U T now2 (fst (createProxyHandler U T now1 st r)) r))
           = origin_log st @ [Director U r]"
  by (rule miss_then_hit_lemma [where T = T and U = U and r = r and st = st, OF assms])

theorem miss_then_hit_witness:
  "Method req_user = ''GET'' \<and>
   cache empty_state (generateCacheKey req_user) = None \<and>
   transport_ok (Director origin_example req_user) = Inr resp_user \<and>
   OBody resp_user = Inr ''{id:1}'' \<and>
   200 \<le> OStatusCode resp_user \<and> OStatusCode resp_user < 300 \<and>
   distinct (map fst (OHeader resp_user)) \<and>
   Get (WHeader (snd (createProxyHandler origin_example transport_ok 7 empty_state req_user)))
     ''X-Cache'' = ''MISS'' \<and>
   cache (fst (createProxyHandler origin_example transport_ok 7 empty_state req_user)) ''GET:/users/1''
     = Some stored_user \<and>
   snd (createProxyHandler origin_example transport_ok 9
          (fst (createProxyHandler origin_example transport_ok 7 empty_state req_user)) req_user)
     = \<lparr>WStatus = 200,
        WHeader = [(''X-Cache'', [''HIT'']), (''Content-Type'', [''application/json'']),
                   (''Set-Cookie'', [''a=1'', ''b=2'']), (''Content-Length'', [''6''])],
        WBody = ''{id:1}''\<rparr>"
proof -
  have m: "Method req_user = ''GET''" by (simp add: req_user_def)
  have c: "cache empty_state (generateCacheKey req_user) = None" by (simp add: empty_state_def)
  have t: "transport_ok (Director origin_example req_user) = Inr resp_user"
    by (simp add: transport_ok_def)
  have b: "OBody resp_user = Inr ''{id:1}''" by (simp add: resp_user_def)
  have s: "200 \<le> OStatusCode resp_user \<and> OStatusCode resp_user < 300"
    by (simp add: resp_user_def)
  have d: "distinct (map fst (OHeader resp_user))" by (simp add: resp_user_def)
  note mh = miss_then_hit [where T = transport_ok and U = origin_example and r = req_user
      and st = empty_state and ?now1.0 = 7 and ?now2.0 = 9, OF m c t b s d]
  have c1: "cache (fst (createProxyHandler origin_example transport_ok 7 empty_state req_user))
              (generateCacheKey req_user) = Some stored_user"
  proof -
    have "OStatusCode resp_user = 200" by (simp add: resp_user_def)
    with mh show ?thesis by (simp add: stored_headers stored_user_def)
  qed
  have "snd (createProxyHandler origin_example transport_ok 9
          (fst (createProxyHandler origin_example transport_ok 7 empty_state req_user)) req_user)
     = \<lparr>WStatus = 200,
        WHeader = [(''X-Cache'', [''HIT'']), (''Content-Type'', [''application/json'']),
                   (''Set-Cookie'', [''a=1'', ''b=2'']), (''Content-Length'', [''6''])],
        WBody = ''{id:1}''\<rparr>"
    by (simp add: handler_hit [OF m c1] stored_user_def copy_cached_headers_def
        Set_hdr_def Add_def values_of_def Sprintf_d.simps)
  with mh c1 m c t b s d show ?thesis by (simp add: key_req_user)
qed

subsection \<open>Only 2xx responses are stored\<close>

lemma ServeHTTP_only_2xx:
  assumes "only_2xx (cache st)"
  shows "only_2xx (cache (fst (ServeHTTP U T now st w r)))"
proof (cases "T (Director U r)")
  case (Inl e)
  with assms show ?thesis by (simp add: ServeHTTP_cache)
next
  case (Inr ores)
  show ?thesis
  proof (cases "OBody ores")
    case (Inl e)
    with Inr assms show ?thesis by (simp add: ServeHTTP_cache)
  next
    case (Inr body)
    with \<open>T (Director U r) = Inr ores\<close> assms show ?thesis
      by (simp add: ServeHTTP_cache only_2xx_def)
  qed
qed

lemma handler_only_2xx:
  assumes "only_2xx (cache st)"
  shows "only_2xx (cache (fst (createProxyHandler U T now st r)))"
proof (cases "Method r = ''GET''")
  case False
  with assms show ?thesis by (simp add: handler_bypass ServeHTTP_only_2xx)
next
  case True
  show ?thesis
  proof (cases "cache st (generateCacheKey r)")
    case None
    with True assms show ?thesis by (simp add: handler_miss ServeHTTP_only_2xx)
  next
    case (Some c)
    with True assms show ?thesis by (simp add: handler_hit)
  qed
qed

lemma serve_all_Cons:
  "fst (serve_all U T st ((now, r) # rs))
     = fst (serve_all U T (fst (createProxyHandler U T now st r)) rs)"
  "snd (serve_all U T st ((now, r) # rs))
     = snd (createProxyHandler U T now st r)
       # snd (serve_all U T (fst (createProxyHandler U T now st r)) rs)"
  by (simp_all split: prod.splits)

lemma serve_all_only_2xx:
  "only_2xx (cache st) \<Longrightarrow> only_2xx (cache (fst (serve_all U T st reqs)))"
proof (induction reqs arbitrary: st)
  case Nil
  then show ?case by simp
next
  case (Cons p reqs)
  obtain now r where p: "p = (now, r)" by (cases p)
  from Cons.IH [OF handler_only_2xx [OF Cons.prems, of U T now r]]
  show ?case by (simp add: p serve_all_Cons del: serve_all.simps)
qed

lemma ModifyResponse_cache:
  "RespBody resp = Inr body \<Longrightarrow>
   fst (ModifyResponse now c resp) =
     (if 200 \<le> RespStatusCode resp \<and> RespStatusCode resp < 300
      then c(generateCacheKey (RespRequest resp) \<mapsto>
             \<lparr>Response = body, StatusCode = RespStatusCode resp,
              Headers = RespHeader resp, Timestamp = now\<rparr>)
      else c)"
  by (simp add: ModifyResponse_def Let_def)

lemma Get_Set_marker: "Get (Set_hdr [] ''X-Cache'' m) ''X-Cache'' = m"
  by (simp add: Get_def values_of_Set)

lemma reaches_origin:
  assumes "Method r = ''GET'' \<longrightarrow> cache st (generateCacheKey r) = None"
  shows "\<exists>m. createProxyHandler U T now st r = ServeHTTP U T now st (Set_hdr [] ''X-Cache'' m) r"
proof (cases "Method r = ''GET''")
  case True
  with assms handler_miss [of r st U T now] show ?thesis by blast
next
  case False
  with handler_bypass [of r U T now st] show ?thesis by blast
qed

lemma handler_keeps_absent:
  assumes "cache st k = None"
    and "generateCacheKey q = k \<longrightarrow> non_2xx (T (Director U q))"
  shows "cache (fst (createProxyHandler U T now st q)) k = None"
proof (cases "Method q = ''GET'' \<longrightarrow> cache st (generateCacheKey q) = None")
  case False
  then obtain c where "Method q = ''GET''" and "cache st (generateCacheKey q) = Some c" by auto
  with assms(1) show ?thesis by (simp add: handler_hit)
next
  case True
  from reaches_origin [OF True, of U T now] obtain m where
    h: "createProxyHandler U T now st q = ServeHTTP U T now st (Set_hdr [] ''X-Cache'' m) q"
    by blast
  show ?thesis
  proof (cases "generateCacheKey q = k")
    case False
    with assms(1) show ?thesis
      by (simp add: h ServeHTTP_cache split: sum.splits)
  next
    case True
    with assms(2) have "non_2xx (T (Director U q))" by simp
    with assms(1) show ?thesis
      by (auto simp: h ServeHTTP_cache non_2xx_def split: sum.splits)
  qed
qed

lemma absent_get_miss:
  assumes "Method q = ''GET''" and "cache st (generateCacheKey q) = None"
  shows "Get (WHeader (snd (createProxyHandler U T now st q))) ''X-Cache'' = ''MISS''"
  by (simp add: handler_miss [OF assms] ServeHTTP_written Get_marker Get_Set_marker
      split: sum.splits)

lemma absent_key_stays:
  assumes "cache st k = None"
    and "\<forall>(now, q) \<in> set reqs. generateCacheKey q = k \<longrightarrow> non_2xx (T (Director U q))"
  shows "cache (fst (serve_all U T st reqs)) k = None \<and>
         (\<forall>((now, q), out) \<in> set (zip reqs (snd (serve_all U T st reqs))).
            Method q = ''GET'' \<and> generateCacheKey q = k \<longrightarrow>
            Get (WHeader out) ''X-Cache'' = ''MISS'')"
  using assms
proof (induction reqs arbitrary: st)
  case Nil
  then show ?case by simp
next
  case (Cons p reqs)
  obtain now q where p: "p = (now, q)" by (cases p)
  let ?st1 = "fst (createProxyHandler U T now st q)"
  have q: "generateCacheKey q = k \<longrightarrow> non_2xx (T (Director U q))"
    using Cons.prems(2) p by simp
  have rest: "\<forall>(now, q) \<in> set reqs. generateCacheKey q = k \<longrightarrow> non_2xx (T (Director U q))"
    using Cons.prems(2) by simp
  have a1: "cache ?st1 k = None"
    by (rule handler_keeps_absent [where T = T and U = U and q = q, OF Cons.prems(1) q])
  have first: "Get (WHeader (snd (createProxyHandler U T now st q))) ''X-Cache'' = ''MISS''"
    if "Method q = ''GET''" and "generateCacheKey q = k"
    using that Cons.prems(1) absent_get_miss [of q st U T now] by simp
  from Cons.IH [OF a1 rest] first show ?case
    by (simp add: p serve_all_Cons del: serve_all.simps)
qed

text \<open>
  Claim C5, as stated, fails in its last part: two requests can have the same key (claim
  C4). The origin answers \<^verbatim>\<open>GET /items?a=1%26b%3D2\<close> with 404 every time and
  \<^verbatim>\<open>GET /items?a=1&b=2\<close> with 200; served in the order first, second, first, the third
  answer is a \<open>HIT\<close> with status 200, the response stored for the second request.
\<close>

theorem not_found_endpoint_hit:
  "transport_amp (Director origin_example req_items_amp) = Inr resp_not_found \<and>
   OStatusCode resp_not_found = 404 \<and>
   cache empty_state (generateCacheKey req_items_amp) = None \<and>
   map (\<lambda>out. (WStatus out, Get (WHeader out) ''X-Cache''))
       (snd (serve_all origin_example transport_amp empty_state
               [(1, req_items_amp), (2, req_items_ab), (3, req_items_amp)]))
     = [(404, ''MISS''), (200, ''MISS''), (200, ''HIT'')]"
proof -
  have "transport_amp (Director origin_example req_items_amp) = Inr resp_not_found"
    by (simp add: transport_amp_def Director_def req_items_amp_def req_items_ab_def)
  moreover have "OStatusCode resp_not_found = 404"
    by (simp add: resp_not_found_def)
  moreover have "cache empty_state (generateCacheKey req_items_amp) = None"
    by (simp add: empty_state_def)
  moreover have "map (\<lambda>out. (WStatus out, Get (WHeader out) ''X-Cache''))
       (snd (serve_all origin_example transport_amp empty_state
               [(1, req_items_amp), (2, req_items_ab), (3, req_items_amp)]))
     = [(404, ''MISS''), (200, ''MISS''), (200, ''HIT'')]"
    by code_simp
  ultimately show ?thesis by simp
qed

text \<open>
  Claim C5, amended. A cache whose entries all have a 2xx status still has only such
  entries after any sequence of requests, whatever the origin answers (the cache is empty
  at process start). A response whose body was read is stored by \<open>ModifyResponse\<close>
  exactly when its status is in [200, 300). If a key is not in the cache and the origin
  gives no 2xx answer to any of the requests served that have this key, the key is still
  not in the cache afterwards and every \<^verbatim>\<open>GET\<close> with this key among them was answered with
  \<open>MISS\<close>.
\<close>

theorem cache_holds_only_2xx:
  "(only_2xx (cache st) \<longrightarrow> only_2xx (cache (fst (serve_all U T st reqs)))) \<and>
   (RespBody resp = Inr body \<longrightarrow>
      fst (ModifyResponse now c resp) =
        (if 200 \<le> RespStatusCode resp \<and> RespStatusCode resp < 300
         then c(generateCacheKey (RespRequest resp) \<mapsto>
                \<lparr>Response = body, StatusCode = RespStatusCode resp,
                 Headers = RespHeader resp, Timestamp = now\<rparr>)
         else c)) \<and>
   (cache st' k = None \<and>
    (\<forall>(now, q) \<in> set reqs'. generateCacheKey q = k \<longrightarrow> non_2xx (T' (Director U q))) \<longrightarrow>
      cache (fst (serve_all U T' st' reqs')) k = None \<and>
      (\<forall>((now, q), out) \<in> set (zip reqs' (snd (serve_all U T' st' reqs'))).
         Method q = ''GET'' \<and> generateCacheKey q = k \<longrightarrow>
         Get (WHeader out) ''X-Cache'' = ''MISS''))"
  using serve_all_only_2xx [of st U T reqs] ModifyResponse_cache [of resp body now c]
    absent_key_stays [of st' k reqs' T' U]
  by blast

text \<open>The witness: \<^verbatim>\<open>GET /users/1\<close>, answered 404 every time, served before and after
  \<^verbatim>\<open>GET /items?a=1&b=2\<close>, answered 200 and stored under another key.\<close>

theorem cache_holds_only_2xx_witness:
  "only_2xx (cache empty_state) \<and>
   only_2xx (cache (fst (serve_all origin_example transport_ok empty_state
                           [(1, req_user_post), (2, req_user)]))) \<and>
   RespBody \<lparr>RespStatusCode = 503, RespHeader = [], RespBody = Inr ''busy'',
             RespRequest = req_user\<rparr> = Inr ''busy'' \<and>
   fst (ModifyResponse 5 (cache empty_state)
          \<lparr>RespStatusCode = 503, RespHeader = [], RespBody = Inr ''busy'',
           RespRequest = req_user\<rparr>) = cache empty_state \<and>
   cache empty_state ''GET:/users/1'' = None \<and>
   generateCacheKey req_user = ''GET:/users/1'' \<and>
   non_2xx (transport_users (Director origin_example req_user)) \<and>
   generateCacheKey req_items_ab = ''GET:/items?a=1&b=2'' \<and>
   cache (fst (serve_all origin_example transport_users empty_state
               [(1, req_user), (2, req_items_ab), (3, req_user)])) ''GET:/users/1'' = None \<and>
   map (\<lambda>out. (WStatus out, Get (WHeader out) ''X-Cache''))
       (snd (serve_all origin_example transport_users empty_state
               [(1, req_user), (2, req_items_ab), (3, req_user)]))
     = [(404, ''MISS''), (200, ''MISS''), (404, ''MISS'')]"
proof -
  have i: "only_2xx (cache empty_state)" by (simp add: only_2xx_def empty_state_def)
  have b: "RespBody \<lparr>RespStatusCode = 503, RespHeader = [], RespBody = Inr ''busy'',
             RespRequest = req_user\<rparr> = Inr ''busy''" by simp
  have c: "cache empty_state ''GET:/users/1'' = None" by (simp add: empty_state_def)
  have ku: "generateCacheKey req_user = ''GET:/users/1''" by (rule key_req_user)
  have ki: "generateCacheKey req_items_ab = ''GET:/items?a=1&b=2''"
    by (simp add: generateCacheKey_unfold spec_pairs_def param_values_def req_items_ab_def)
  have n: "non_2xx (transport_users (Director origin_example req_user))"
    by (simp add: non_2xx_def transport_users_def Director_def req_user_def resp_not_found_def)
  have h: "\<forall>(now, q) \<in> set [(1, req_user), (2, req_items_ab), (3, req_user)].
             generateCacheKey q = ''GET:/users/1'' \<longrightarrow>
             non_2xx (transport_users (Director origin_example q))"
    using n by (simp add: ku ki)
  have e: "map (\<lambda>out. (WStatus out, Get (WHeader out) ''X-Cache''))
       (snd (serve_all origin_example transport_users empty_state
               [(1, req_user), (2, req_items_ab), (3, req_user)]))
     = [(404, ''MISS''), (200, ''MISS''), (404, ''MISS'')]"
    by code_simp
  from cache_holds_only_2xx [where st = empty_state and U = origin_example and T = transport_ok
      and reqs = "[(1, req_user_post), (2, req_user)]"
      and resp = "\<lparr>RespStatusCode = 503, RespHeader = [], RespBody = Inr ''busy'',
                    RespRequest = req_user\<rparr>"
      and body = "''busy''" and now = 5 and c = "cache empty_state"
      and st' = empty_state and T' = transport_users and k = "''GET:/users/1''"
      and reqs' = "[(1, req_user), (2, req_items_ab), (3, req_user)]"]
    i b c h
  have "only_2xx (cache (fst (serve_all origin_example transport_ok empty_state
                           [(1, req_user_post), (2, req_user)])))"
    and "fst (ModifyResponse 5 (cache empty_state)
          \<lparr>RespStatusCode = 503, RespHeader = [], RespBody = Inr ''busy'',
           RespRequest = req_user\<rparr>) = cache empty_state"
    and "cache (fst (serve_all origin_example transport_users empty_state
               [(1, req_user), (2, req_items_ab), (3, req_user)])) ''GET:/users/1'' = None"
    by simp_all
  with i b c ku ki n e show ?thesis by simp
qed

subsection \<open>Failure to read the body\<close>

lemma ModifyResponse_read_error:
  "RespBody resp = Inl err \<Longrightarrow>
   ModifyResponse now c resp = (c, Inl (''failed to read response body for caching: '' @ err))"
  by (simp add: ModifyResponse_def Let_def)

lemma handler_read_error:
  assumes "T (Director U r) = Inr ores"
    and "OBody ores = Inl err"
    and "Method r = ''GET'' \<longrightarrow> cache st (generateCacheKey r) = None"
  shows "fst (createProxyHandler U T now st r) = st\<lparr>origin_log := origin_log st @ [Director U r]\<rparr> \<and>
         cache (fst (createProxyHandler U T now st r)) = cache st \<and>
         WStatus (snd (createProxyHandler U T now st r)) = 502 \<and>
         WBody (snd (createProxyHandler U T now st r)) = []"
proof -
  from reaches_origin [OF assms(3), of U T now] obtain m where
    h: "createProxyHandler U T now st r = ServeHTTP U T now st (Set_hdr [] ''X-Cache'' m) r"
    by blast
  have c: "cache (fst (ServeHTTP U T now st (Set_hdr [] ''X-Cache'' m) r)) = cache st"
    by (simp add: ServeHTTP_cache assms(1,2))
  have "fst (ServeHTTP U T now st (Set_hdr [] ''X-Cache'' m) r)
          = st\<lparr>origin_log := origin_log st @ [Director U r]\<rparr>"
    by (subst ServeHTTP_state) (simp add: c)
  then show ?thesis
    by (simp add: h ServeHTTP_written assms(1,2))
qed

text \<open>
  Claim C8. When reading the origin's response body fails, \<open>ModifyResponse\<close> returns an
  error and the cache it was given. For a request that reaches the origin (one that is not
  a \<^verbatim>\<open>GET\<close>, or a \<^verbatim>\<open>GET\<close> whose key is not in the cache) the handler then returns status
  502 with no body, the reverse proxy's answer to an error from \<open>ModifyResponse\<close>, and a
  state that differs from the one before only by the logged call: the cache is the same,
  and the next request is served from that state.
\<close>

theorem body_read_failure:
  "(RespBody resp = Inl err \<longrightarrow>
      ModifyResponse now c resp
        = (c, Inl (''failed to read response body for caching: '' @ err))) \<and>
   (T (Director U r) = Inr ores \<and> OBody ores = Inl err \<and>
    (Method r = ''GET'' \<longrightarrow> cache st (generateCacheKey r) = None) \<longrightarrow>
      fst (createProxyHandler U T now st r) = st\<lparr>origin_log := origin_log st @ [Director U r]\<rparr> \<and>
      cache (fst (createProxyHandler U T now st r)) = cache st \<and>
      WStatus (snd (createProxyHandler U T now st r)) = 502 \<and>
      WBody (snd (createProxyHandler U T now st r)) = [])"
  using ModifyResponse_read_error [of resp err now c] handler_read_error [of T U r ores err st now]
  by blast

theorem body_read_failure_witness:
  "RespBody \<lparr>RespStatusCode = 200, RespHeader = [], RespBody = Inl ''unexpected EOF'',
             RespRequest = req_user\<rparr> = Inl ''unexpected EOF'' \<and>
   ModifyResponse 5 (cache other_state)
       \<lparr>RespStatusCode = 200, RespHeader = [], RespBody = Inl ''unexpected EOF'',
        RespRequest = req_user\<rparr>
     = (cache other_state, Inl ''failed to read response body for caching: unexpected EOF'') \<and>
   transport_broken (Director origin_example req_user) = Inr resp_broken \<and>
   OBody resp_broken = Inl ''unexpected EOF'' \<and>
   cache other_state (generateCacheKey req_user) = None \<and>
   cache (fst (createProxyHandler origin_example transport_broken 5 other_state req_user))
     = cache other_state \<and>
   snd (createProxyHandler origin_example transport_broken 5 other_state req_user)
     = \<lparr>WStatus = 502, WHeader = [(''X-Cache'', [''MISS''])], WBody = []\<rparr>"
proof -
  have b: "RespBody \<lparr>RespStatusCode = 200, RespHeader = [], RespBody = Inl ''unexpected EOF'',
             RespRequest = req_user\<rparr> = Inl ''unexpected EOF''" by simp
  have t: "transport_broken (Director origin_example req_user) = Inr resp_broken"
    by (simp add: transport_broken_def)
  have e: "OBody resp_broken = Inl ''unexpected EOF''"
    by (simp add: resp_broken_def)
  have c: "cache other_state (generateCacheKey req_user) = None"
    by (simp add: key_req_user other_state_def)
  have m: "Method req_user = ''GET''" by (simp add: req_user_def)
  have w: "snd (createProxyHandler origin_example transport_broken 5 other_state req_user)
     = \<lparr>WStatus = 502, WHeader = [(''X-Cache'', [''MISS''])], WBody = []\<rparr>"
    by (simp add: handler_miss [OF m c] ServeHTTP_written t e Set_hdr_def)
  from body_read_failure [where resp = "\<lparr>RespStatusCode = 200, RespHeader = [],
        RespBody = Inl ''unexpected EOF'', RespRequest = req_user\<rparr>"
      and err = "''unexpected EOF''" and now = 5 and c = "cache other_state"
      and T = transport_broken and U = origin_example and r = req_user and ores = resp_broken
      and st = other_state]
    b t e c w
  show ?thesis by simp
qed

subsection \<open>The key of the put\<close>

lemma miss_put:
  assumes "Method r = ''GET''"
    and "cache st (generateCacheKey r) = None"
    and "T (Director U r) = Inr ores"
    and "OBody ores = Inr body"
    and "200 \<le> OStatusCode ores \<and> OStatusCode ores < 300"
  shows "cache (fst (createProxyHandler U T now st r))
           = (cache st)(generateCacheKey r \<mapsto>
               \<lparr>Response = body, StatusCode = OStatusCode ores,
                Headers = removeHopByHopHeaders (OHeader ores), Timestamp = now\<rparr>)"
  by (simp add: handler_miss [OF assms(1,2)] ServeHTTP_cache assms(3,4,5))

text \<open>
  Claim C9. \<open>ModifyResponse\<close> computes its key from the request attached to the response,
  which is the outbound one after \<open>Director\<close>; \<open>Director\<close> changes the host, the scheme
  and the headers only, so that key is the key of the request as the client sent it. On a
  miss answered with a readable 2xx response the cache afterwards is the cache before
  with the response (its headers as the reverse proxy hands them over, the hop-by-hop ones
  removed) put under the client request's key, the key the same request looks up next
  time.
\<close>

theorem put_uses_client_key:
  "generateCacheKey (Director U r) = generateCacheKey r \<and>
   (Method r = ''GET'' \<and> cache st (generateCacheKey r) = None \<and>
    T (Director U r) = Inr ores \<and> OBody ores = Inr body \<and>
    200 \<le> OStatusCode ores \<and> OStatusCode ores < 300 \<longrightarrow>
      cache (fst (createProxyHandler U T now st r))
        = (cache st)(generateCacheKey r \<mapsto>
            \<lparr>Response = body, StatusCode = OStatusCode ores,
             Headers = removeHopByHopHeaders (OHeader ores), Timestamp = now\<rparr>))"
  using Director_key [of U r] miss_put [of r st T U ores body now]
  by blast

theorem put_uses_client_key_witness:
  "Director origin_example req_items_ba \<noteq> req_items_ba \<and>
   generateCacheKey (Director origin_example req_items_ba) = ''GET:/items?a=1&b=2'' \<and>
   Method req_items_ba = ''GET'' \<and>
   cache empty_state (generateCacheKey req_items_ba) = None \<and>
   transport_ok (Director origin_example req_items_ba) = Inr resp_user \<and>
   OBody resp_user = Inr ''{id:1}'' \<and>
   200 \<le> OStatusCode resp_user \<and> OStatusCode resp_user < 300 \<and>
   cache (fst (createProxyHandler origin_example transport_ok 7 empty_state req_items_ba))
     = [''GET:/items?a=1&b=2'' \<mapsto> stored_user]"
proof -
  have k: "generateCacheKey req_items_ba = ''GET:/items?a=1&b=2''"
    by (simp add: generateCacheKey_unfold spec_pairs_def param_values_def req_items_ba_def)
  have n: "Director origin_example req_items_ba \<noteq> req_items_ba"
    by (simp add: Director_def origin_example_def req_items_ba_def Request.equality)
  have m: "Method req_items_ba = ''GET''" by (simp add: req_items_ba_def)
  have c: "cache empty_state (generateCacheKey req_items_ba) = None"
    by (simp add: empty_state_def)
  have t: "transport_ok (Director origin_example req_items_ba) = Inr resp_user"
    by (simp add: transport_ok_def)
  have b: "OBody resp_user = Inr ''{id:1}''" by (simp add: resp_user_def)
  have s: "200 \<le> OStatusCode resp_user \<and> OStatusCode resp_user < 300"
    by (simp add: resp_user_def)
  have s2: "OStatusCode resp_user = 200" by (simp add: resp_user_def)
  from put_uses_client_key [where U = origin_example and r = req_items_ba and st = empty_state
      and T = transport_ok and ores = resp_user and body = "''{id:1}''" and now = 7]
    k n m c t b s
  show ?thesis by (simp add: stored_user_def stored_headers empty_state_def s2)
qed

subsection \<open>Entries of other methods\<close>

lemma key_shape: "\<exists>rest. generateCacheKey r = Method r @ CHR '':'' # rest"
  by (simp add: generateCacheKey_unfold)

lemma key_method_prefix:
  "take (length (Method r) + 1) (generateCacheKey r) = Method r @ '':''"
  using key_shape [of r] by auto

lemma get_key_differs:
  assumes "Method q = ''GET''" and "Method r \<noteq> ''GET''" and "CHR '':'' \<notin> set (Method r)"
  shows "generateCacheKey q \<noteq> generateCacheKey r"
proof
  assume eq: "generateCacheKey q = generateCacheKey r"
  from key_shape [of q] obtain a where a: "generateCacheKey q = Method q @ CHR '':'' # a" by blast
  from key_shape [of r] obtain b where b: "generateCacheKey r = Method r @ CHR '':'' # b" by blast
  have c: "CHR '':'' \<notin> set (Method q)" by (simp add: assms(1))
  have "Method q @ CHR '':'' # a = Method r @ CHR '':'' # b"
    using eq by (simp only: a b)
  from split_at_first [OF c assms(3) this] have "Method q = Method r" by simp
  with assms(1,2) show False by simp
qed

lemma written_ignores_other_entry:
  assumes "Method q = ''GET'' \<longrightarrow> generateCacheKey q \<noteq> k"
  shows "snd (createProxyHandler U T now (st\<lparr>cache := (cache st)(k \<mapsto> e)\<rparr>) q)
           = snd (createProxyHandler U T now st q)"
proof (cases "Method q = ''GET''")
  case False
  then show ?thesis by (simp add: handler_bypass ServeHTTP_written)
next
  case True
  with assms have ne: "generateCacheKey q \<noteq> k" by simp
  show ?thesis
  proof (cases "cache st (generateCacheKey q)")
    case None
    with ne have "cache (st\<lparr>cache := (cache st)(k \<mapsto> e)\<rparr>) (generateCacheKey q) = None" by simp
    from handler_miss [OF True this] handler_miss [OF True None] show ?thesis
      by (simp add: ServeHTTP_written)
  next
    case (Some c)
    with ne have "cache (st\<lparr>cache := (cache st)(k \<mapsto> e)\<rparr>) (generateCacheKey q) = Some c" by simp
    from handler_hit [OF True this] handler_hit [OF True Some] show ?thesis
      by simp
  qed
qed

lemma written_non_get_ignores_cache:
  "Method q \<noteq> ''GET'' \<Longrightarrow>
   snd (createProxyHandler U T now (st\<lparr>cache := c'\<rparr>) q) = snd (createProxyHandler U T now st q)"
  by (simp add: handler_bypass ServeHTTP_written)

text \<open>
  Claim C10. Every key begins with the request's method and a colon. For a request \<open>r\<close>
  whose method is not \<^verbatim>\<open>GET\<close> (a method is an HTTP token, so it has no colon), an entry
  under \<open>r\<close>'s key changes nothing in what is written for any request \<open>q\<close>. And what is
  written for a request \<open>p\<close> that is not a \<^verbatim>\<open>GET\<close> does not depend on the cache at all:
  it is always forwarded to the origin.
\<close>

theorem non_get_entries_never_served:
  "take (length (Method r) + 1) (generateCacheKey r) = Method r @ '':'' \<and>
   (Method r \<noteq> ''GET'' \<and> CHR '':'' \<notin> set (Method r) \<longrightarrow>
      snd (createProxyHandler U T now (st\<lparr>cache := (cache st)(generateCacheKey r \<mapsto> e)\<rparr>) q)
        = snd (createProxyHandler U T now st q)) \<and>
   (Method p \<noteq> ''GET'' \<longrightarrow>
      snd (createProxyHandler U T now (st\<lparr>cache := c'\<rparr>) p)
        = snd (createProxyHandler U T now st p) \<and>
      origin_log (fst (createProxyHandler U T now st p)) = origin_log st @ [Director U p])"
proof -
  have "snd (createProxyHandler U T now (st\<lparr>cache := (cache st)(generateCacheKey r \<mapsto> e)\<rparr>) q)
        = snd (createProxyHandler U T now st q)"
    if "Method r \<noteq> ''GET''" and "CHR '':'' \<notin> set (Method r)"
    using written_ignores_other_entry [of q "generateCacheKey r" U T now st e]
      get_key_differs [OF _ that] by blast
  moreover have "origin_log (fst (createProxyHandler U T now st p)) = origin_log st @ [Director U p]"
    if "Method p \<noteq> ''GET''"
    using that by (simp add: handler_bypass ServeHTTP_log)
  ultimately show ?thesis
    using key_method_prefix [of r]
      written_non_get_ignores_cache [where q = p and U = U and T = T and now = now and st = st
        and c' = c']
    by blast
qed

theorem non_get_entries_never_served_witness:
  "take (length ''POST'' + 1) (generateCacheKey req_user_post) = ''POST:'' \<and>
   Method req_user_post \<noteq> ''GET'' \<and> CHR '':'' \<notin> set (Method req_user_post) \<and>
   snd (createProxyHandler origin_example transport_ok 9
          (hit_state\<lparr>cache := (cache hit_state)(generateCacheKey req_user_post \<mapsto> posted_entry)\<rparr>)
          req_user)
     = snd (createProxyHandler origin_example transport_ok 9 hit_state req_user) \<and>
   WBody (snd (createProxyHandler origin_example transport_ok 9
          (hit_state\<lparr>cache := (cache hit_state)(generateCacheKey req_user_post \<mapsto> posted_entry)\<rparr>)
          req_user)) = ''{id:1}'' \<and>
   snd (createProxyHandler origin_example transport_nf 9
          (empty_state\<lparr>cache := cache hit_state\<rparr>) req_user_post)
     = snd (createProxyHandler origin_example transport_nf 9 empty_state req_user_post) \<and>
   origin_log (fst (createProxyHandler origin_example transport_nf 9 empty_state req_user_post))
     = [Director origin_example req_user_post]"
proof -
  have m: "Method req_user_post \<noteq> ''GET''" by (simp add: req_user_post_def)
  have c: "CHR '':'' \<notin> set (Method req_user_post)" by (simp add: req_user_post_def)
  have g: "Method req_user = ''GET''" by (simp add: req_user_def)
  have h: "cache hit_state (generateCacheKey req_user) = Some cached_user"
    by (simp add: key_req_user hit_state_def)
  have b: "WBody (snd (createProxyHandler origin_example transport_ok 9 hit_state req_user))
             = ''{id:1}''"
    by (simp add: handler_hit [OF g h] cached_user_def)
  from non_get_entries_never_served [where r = req_user_post and q = req_user
      and p = req_user_post and U = origin_example and now = 9 and e = posted_entry
      and st = hit_state and T = transport_ok]
    m c b
  have 1: "snd (createProxyHandler origin_example transport_ok 9
          (hit_state\<lparr>cache := (cache hit_state)(generateCacheKey req_user_post \<mapsto> posted_entry)\<rparr>)
          req_user)
     = snd (createProxyHandler origin_example transport_ok 9 hit_state req_user)"
    by blast
  from non_get_entries_never_served [where r = req_user_post and q = req_user
      and p = req_user_post and U = origin_example and now = 9 and e = posted_entry
      and st = empty_state and T = transport_nf and c' = "cache hit_state"]
    m
  have 2: "snd (createProxyHandler origin_example transport_nf 9
          (empty_state\<lparr>cache := cache hit_state\<rparr>) req_user_post)
     = snd (createProxyHandler origin_example transport_nf 9 empty_state req_user_post)"
    and 3: "origin_log (fst (createProxyHandler origin_example transport_nf 9 empty_state req_user_post))
     = origin_log empty_state @ [Director origin_example req_user_post]"
    and 4: "take (length (Method req_user_post) + 1) (generateCacheKey req_user_post)
              = Method req_user_post @ '':''"
    by blast+
  from 4 have 5: "take (length ''POST'' + 1) (generateCacheKey req_user_post) = ''POST:''"
    by (simp add: req_user_post_def)
  from 1 2 3 5 m c b show ?thesis by (simp add: empty_state_def)
qed

end
